theory Spec2Isabelle
  imports Complex_Main
begin

section \<open>The DCA calculator: \<open>calculate_dca\<close> and the result summary of \<open>main\<close>\<close>

subsection \<open>Floating-point values\<close>

text \<open>
  Every number of \<open>calculator.py\<close> is a 64-bit float, held either by a Python float or
  by a \<open>numpy.float64\<close> scalar. Finite values are modelled by exact reals (rounding,
  overflow and the sign of zero are outside the model, so an equation between computed
  values is an equation of exact arithmetic); the three other values a float can take are
  kept. The operations below are those of IEEE arithmetic, which never raise. Addition
  and multiplication behave so for both holders. Division behaves so when one operand is
  a numpy scalar (a zero divisor gives an infinity or NaN, with a \<open>RuntimeWarning\<close> that
  does not interrupt the computation); between two Python floats a zero divisor raises
  \<open>ZeroDivisionError\<close>, which \<open>truediv\<close> below adds.
\<close>

datatype float64 = Fin real | PInf | NInf | NaN

fun is_finite :: "float64 \<Rightarrow> bool" where
  "is_finite (Fin a) = True"
| "is_finite _ = False"

text \<open>The sign of a value (\<open>0\<close> for zero and for NaN) and the infinity of a given sign;
  a sign of \<open>0\<close> stands for an invalid operation, whose result is NaN.\<close>

fun fsign :: "float64 \<Rightarrow> int" where
  "fsign (Fin a) = (if 0 < a then 1 else if a < 0 then - 1 else 0)"
| "fsign PInf = 1"
| "fsign NInf = - 1"
| "fsign NaN = 0"

definition inf_of_sign :: "int \<Rightarrow> float64" where
  "inf_of_sign s = (if 0 < s then PInf else if s < 0 then NInf else NaN)"

fun fadd :: "float64 \<Rightarrow> float64 \<Rightarrow> float64" where
  "fadd (Fin a) (Fin b) = Fin (a + b)"
| "fadd NaN y = NaN"
| "fadd x NaN = NaN"
| "fadd PInf NInf = NaN"
| "fadd NInf PInf = NaN"
| "fadd PInf y = PInf"
| "fadd NInf y = NInf"
| "fadd x PInf = PInf"
| "fadd x NInf = NInf"

fun fneg :: "float64 \<Rightarrow> float64" where
  "fneg (Fin a) = Fin (- a)"
| "fneg PInf = NInf"
| "fneg NInf = PInf"
| "fneg NaN = NaN"

definition fsub :: "float64 \<Rightarrow> float64 \<Rightarrow> float64" where
  "fsub x y = fadd x (fneg y)"

fun fmul :: "float64 \<Rightarrow> float64 \<Rightarrow> float64" where
  "fmul (Fin a) (Fin b) = Fin (a * b)"
| "fmul NaN y = NaN"
| "fmul x NaN = NaN"
| "fmul x y = inf_of_sign (fsign x * fsign y)"

text \<open>Division without the Python check of the divisor: a finite value over zero is an
  infinity of the dividend's sign, zero over zero is NaN.\<close>

fun fdiv :: "float64 \<Rightarrow> float64 \<Rightarrow> float64" where
  "fdiv (Fin a) (Fin b) = (if b = 0 then inf_of_sign (fsign (Fin a)) else Fin (a / b))"
| "fdiv NaN y = NaN"
| "fdiv x NaN = NaN"
| "fdiv (Fin a) y = Fin 0"
| "fdiv x (Fin b) = inf_of_sign (fsign x * (if b < 0 then - 1 else 1))"
| "fdiv x y = NaN"

text \<open>The comparisons \<open><=\<close> and \<open>==\<close> of floats: every comparison with NaN is false.\<close>

fun fle :: "float64 \<Rightarrow> float64 \<Rightarrow> bool" where
  "fle NaN y = False"
| "fle x NaN = False"
| "fle NInf y = True"
| "fle x PInf = True"
| "fle (Fin a) (Fin b) = (a \<le> b)"
| "fle x y = False"

definition feq :: "float64 \<Rightarrow> float64 \<Rightarrow> bool" where
  "feq x y = (x = y \<and> x \<noteq> NaN)"

subsection \<open>The price frame and the log\<close>

text \<open>
  The argument \<open>filtered_data\<close> is a data frame indexed by date. A row of the frame holds
  one cell per column: a cell of a numeric column is a \<open>float64\<close>, a cell of a column of
  dtype \<open>object\<close> is a Python object, here a Python number or a string.
\<close>

datatype cell = Float64 float64 | PyFloat float64 | PyStr string

type_synonym timestamp = int

type_synonym row = "(string \<times> cell) list"

type_synonym dataframe = "(timestamp \<times> row) list"

text \<open>
  \<open>iterrows()\<close> yields the rows in order, each as the pair of its index value and a
  series of a single dtype. When every column is numeric, the series is numeric and its
  items are numpy scalars. With any other column the series has dtype \<open>object\<close> and every
  item is a Python object: a \<open>float64\<close> cell is delivered as a Python float.
\<close>

fun is_float64 :: "cell \<Rightarrow> bool" where
  "is_float64 (Float64 x) = True"
| "is_float64 c = False"

fun as_object :: "cell \<Rightarrow> cell" where
  "as_object (Float64 x) = PyFloat x"
| "as_object c = c"

definition numeric_row :: "row \<Rightarrow> bool" where
  "numeric_row r = list_all (\<lambda>(column, c). is_float64 c) r"

definition iterrow :: "timestamp \<times> row \<Rightarrow> timestamp \<times> row" where
  "iterrow dr =
     (if numeric_row (snd dr) then dr
      else (fst dr, map (\<lambda>(column, c). (column, as_object c)) (snd dr)))"

definition iterrows :: "dataframe \<Rightarrow> dataframe" where
  "iterrows df = map iterrow df"

text \<open>The errors Python raises in \<open>calculate_dca\<close> and in the summary of \<open>main\<close>:
  a missing column, a division of Python floats by zero, arithmetic on a string.\<close>

datatype error = KeyError | ZeroDivisionError | TypeError

text \<open>\<open>row[key]\<close>, the item of a series under a column name.\<close>

definition getitem :: "row \<Rightarrow> string \<Rightarrow> error + cell" where
  "getitem r key = (case map_of r key of None \<Rightarrow> Inl KeyError | Some c \<Rightarrow> Inr c)"

text \<open>
  \<open>contribution / price\<close>. The contribution is a Python number: the signature annotates
  both parameters as \<open>float\<close>, \<open>main\<close> passes the floats of its input widgets and the test
  passes integers. The price is the item read from the row. A numpy scalar divides by
  the rules of \<open>fdiv\<close>; a Python number divides so too unless it is zero, and then Python
  raises; a string raises.
\<close>

fun truediv :: "float64 \<Rightarrow> cell \<Rightarrow> error + float64" where
  "truediv x (Float64 y) = Inr (fdiv x y)"
| "truediv x (PyFloat y) = (if y = Fin 0 then Inl ZeroDivisionError else Inr (fdiv x y))"
| "truediv x (PyStr s) = Inl TypeError"

text \<open>The number a cell holds, for \<open>total_shares * price\<close> and for the price written to
  the log; a string holds none.\<close>

fun number :: "cell \<Rightarrow> float64 option" where
  "number (Float64 x) = Some x"
| "number (PyFloat x) = Some x"
| "number (PyStr s) = None"

text \<open>One dictionary appended to \<open>dca_log\<close>, with the source's keys \<open>"Date"\<close>,
  \<open>"Price"\<close>, \<open>"Total Shares"\<close>, \<open>"Total Investment"\<close> and \<open>"Portfolio Value"\<close>.\<close>

record log_entry =
  Date :: timestamp
  Price :: float64
  Total_Shares :: float64
  Total_Investment :: float64
  Portfolio_Value :: float64

type_synonym dca_result = "log_entry list \<times> float64 \<times> float64"

subsection \<open>\<open>calculate_dca\<close>\<close>

text \<open>
  The \<open>for\<close> loop of \<open>calculate_dca\<close>: \<open>i\<close> is the counter of \<open>enumerate\<close>, the second
  argument holds the items of \<open>iterrows()\<close> still to come, and \<open>total_shares\<close>,
  \<open>total_invested\<close> and \<open>dca_log\<close> are the three variables the body updates. An error
  raised in the body ends the call. When the rows are exhausted the function returns the
  log with the two totals.
\<close>

fun dca_loop ::
  "nat \<Rightarrow> dataframe \<Rightarrow> float64 \<Rightarrow> float64 \<Rightarrow> float64 \<Rightarrow> float64 \<Rightarrow> log_entry list
    \<Rightarrow> error + dca_result" where
  "dca_loop i [] regular_contribution initial_investment total_shares total_invested dca_log =
     Inr (dca_log, total_shares, total_invested)"
| "dca_loop i ((date, row) # rest) regular_contribution initial_investment
       total_shares total_invested dca_log =
     (case getitem row ''Close'' of
        Inl e \<Rightarrow> Inl e
      | Inr price \<Rightarrow>
          (let contribution =
                 (if i = 0 then fadd regular_contribution initial_investment
                  else regular_contribution)
           in case truediv contribution price of
                Inl e \<Rightarrow> Inl e
              | Inr bought \<Rightarrow>
                  (case number price of
                     None \<Rightarrow> Inl TypeError
                   | Some p \<Rightarrow>
                       (let total_shares = fadd total_shares bought;
                            total_invested = fadd total_invested contribution;
                            dca_log = dca_log @
                              [\<lparr>Date = date, Price = p, Total_Shares = total_shares,
                                Total_Investment = total_invested,
                                Portfolio_Value = fmul total_shares p\<rparr>]
                        in dca_loop (i + 1) rest regular_contribution initial_investment
                             total_shares total_invested dca_log))))"

definition calculate_dca :: "dataframe \<Rightarrow> float64 \<Rightarrow> float64 \<Rightarrow> error + dca_result" where
  "calculate_dca filtered_data regular_contribution initial_investment =
     dca_loop 0 (iterrows filtered_data) regular_contribution initial_investment
       (Fin 0) (Fin 0) []"

text \<open>
  Three names for the proofs about the loop. The first is what one iteration makes of
  its row: the price it divides by, or the error it raises. The others are the value of
  \<open>contribution\<close> in iteration \<open>i\<close>, and the dictionary the iteration appends when it
  starts from the totals \<open>total_shares\<close> and \<open>total_invested\<close>.
\<close>

fun divisor :: "cell \<Rightarrow> error + float64" where
  "divisor (Float64 y) = Inr y"
| "divisor (PyFloat y) = (if y = Fin 0 then Inl ZeroDivisionError else Inr y)"
| "divisor (PyStr s) = Inl TypeError"

definition price_of :: "timestamp \<times> row \<Rightarrow> error + float64" where
  "price_of dr = (case getitem (snd dr) ''Close'' of Inl e \<Rightarrow> Inl e | Inr c \<Rightarrow> divisor c)"

definition contribution_at :: "nat \<Rightarrow> float64 \<Rightarrow> float64 \<Rightarrow> float64" where
  "contribution_at i regular_contribution initial_investment =
     (if i = 0 then fadd regular_contribution initial_investment else regular_contribution)"

definition appended ::
  "timestamp \<Rightarrow> float64 \<Rightarrow> float64 \<Rightarrow> float64 \<Rightarrow> float64 \<Rightarrow> log_entry" where
  "appended date price contribution total_shares total_invested =
     \<lparr>Date = date, Price = price,
      Total_Shares = fadd total_shares (fdiv contribution price),
      Total_Investment = fadd total_invested contribution,
      Portfolio_Value = fmul (fadd total_shares (fdiv contribution price)) price\<rparr>"

subsection \<open>The result summary of \<open>main\<close>\<close>

text \<open>
  Lines 108 to 118 of \<open>main\<close> read the two columns of the log frame, take the last
  portfolio value and print three figures: the total invested, the final value, and the
  net gain or loss with its percentage of the total invested. A frame built from an empty
  list of dictionaries has no columns, so reading \<open>"Total Investment"\<close> raises
  \<open>KeyError\<close>. The percentage is computed by an unguarded division, whose dividend is a
  numpy scalar because \<open>final_value\<close> is an item of a numeric column.
\<close>

record summary =
  final_value :: float64
  net_gain_loss :: float64
  net_gain_loss_pct :: float64

definition main_results :: "dca_result \<Rightarrow> error + summary" where
  "main_results res =
     (case res of (dca_df, total_shares, total_invested) \<Rightarrow>
        if dca_df = [] then Inl KeyError
        else
          (let final_value = Portfolio_Value (last dca_df);
               net_gain_loss = fsub final_value total_invested
           in Inr \<lparr>final_value = final_value, net_gain_loss = net_gain_loss,
                   net_gain_loss_pct =
                     fmul (fdiv net_gain_loss total_invested) (Fin 100)\<rparr>))"

subsection \<open>Inputs\<close>

text \<open>A frame with the single numeric column \<open>Close\<close>, one row per price, at
  successive dates starting from \<open>d\<close>; the frame of the test is one.\<close>

fun close_frame :: "timestamp \<Rightarrow> real list \<Rightarrow> dataframe" where
  "close_frame d [] = []"
| "close_frame d (p # ps) = (d, [(''Close'', Float64 (Fin p))]) # close_frame (d + 1) ps"

text \<open>The price in the column \<open>Close\<close> of a frame row, when the column is there and
  its cell holds a number.\<close>

definition close :: "timestamp \<times> row \<Rightarrow> float64 option" where
  "close dr = (case map_of (snd dr) ''Close'' of None \<Rightarrow> None | Some c \<Rightarrow> number c)"

text \<open>The sequence of dates of a frame with the price of each date.\<close>

definition dates_and_prices :: "dataframe \<Rightarrow> (timestamp \<times> float64 option) list" where
  "dates_and_prices df = map (\<lambda>dr. (fst dr, close dr)) df"

text \<open>
  The inputs the specification calls valid: a regular contribution and an initial
  investment that are at least zero, and a price above zero in every row. A contribution
  or a price is a finite number, so NaN and the infinities are not valid inputs.
\<close>

fun nonneg :: "float64 \<Rightarrow> bool" where
  "nonneg (Fin a) = (0 \<le> a)"
| "nonneg x = False"

fun positive :: "float64 \<Rightarrow> bool" where
  "positive (Fin a) = (0 < a)"
| "positive x = False"

definition valid_price :: "timestamp \<times> row \<Rightarrow> bool" where
  "valid_price dr = (case close dr of None \<Rightarrow> False | Some price \<Rightarrow> positive price)"

definition valid_input :: "dataframe \<Rightarrow> float64 \<Rightarrow> float64 \<Rightarrow> bool" where
  "valid_input filtered_data regular_contribution initial_investment =
     (nonneg regular_contribution \<and> nonneg initial_investment \<and>
      list_all valid_price filtered_data)"

text \<open>The order between one log entry and the next that the specification asks for:
  neither total decreases.\<close>

definition non_decreasing :: "log_entry \<Rightarrow> log_entry \<Rightarrow> bool" where
  "non_decreasing e e' =
     (fle (Total_Shares e) (Total_Shares e') \<and>
      fle (Total_Investment e) (Total_Investment e'))"

text \<open>The specification's formula P2 for the total invested after interval \<open>i\<close>:
  \<open>regularContribution * (i + 1) + (initialInvestment if i == 0 else 0)\<close>.\<close>

definition spec_total_invested :: "float64 \<Rightarrow> float64 \<Rightarrow> nat \<Rightarrow> float64" where
  "spec_total_invested regular_contribution initial_investment i =
     fadd (fmul regular_contribution (Fin (real (i + 1))))
          (if i = 0 then initial_investment else Fin 0)"

section \<open>The loop\<close>

text \<open>One iteration, when it reads a price it can divide by and when it raises.\<close>

lemma truediv_divisor:
  "truediv x c = (case divisor c of Inl e \<Rightarrow> Inl e | Inr p \<Rightarrow> Inr (fdiv x p))"
  by (cases c) simp_all

lemma divisor_number: "divisor c = Inr p \<Longrightarrow> number c = Some p"
  by (cases c) (auto split: if_splits)

lemma dca_loop_Cons:
  assumes "price_of (d, r) = Inr p"
  shows "dca_loop i ((d, r) # df) rc ii ts ti lg =
     dca_loop (Suc i) df rc ii
       (Total_Shares (appended d p (contribution_at i rc ii) ts ti))
       (Total_Investment (appended d p (contribution_at i rc ii) ts ti))
       (lg @ [appended d p (contribution_at i rc ii) ts ti])"
proof -
  from assms obtain c where c: "getitem r ''Close'' = Inr c" "divisor c = Inr p"
    by (auto simp: price_of_def split: sum.splits)
  from c(2) have n: "number c = Some p" by (rule divisor_number)
  show ?thesis
    by (simp add: c n truediv_divisor Let_def appended_def contribution_at_def)
qed

lemma dca_loop_raises:
  assumes "price_of (d, r) = Inl e"
  shows "dca_loop i ((d, r) # df) rc ii ts ti lg = Inl e"
proof (cases "getitem r ''Close''")
  case (Inl e')
  with assms show ?thesis by (simp add: price_of_def)
next
  case (Inr c)
  with assms have "divisor c = Inl e" by (simp add: price_of_def)
  with Inr show ?thesis by (simp add: truediv_divisor Let_def)
qed

text \<open>The invariant rule: a property of the counter, the two totals and the log that
  holds before the loop and is kept by every iteration holds of what the loop returns.\<close>

lemma dca_loop_invariant:
  assumes "dca_loop i df rc ii ts ti lg = Inr (lg', ts', ti')"
    and "I i ts ti lg"
    and "\<And>i d r p ts ti lg e. I i ts ti lg \<Longrightarrow> (d, r) \<in> set df \<Longrightarrow> price_of (d, r) = Inr p \<Longrightarrow>
           e = appended d p (contribution_at i rc ii) ts ti \<Longrightarrow>
           I (Suc i) (Total_Shares e) (Total_Investment e) (lg @ [e])"
  shows "I (i + length df) ts' ti' lg'"
  using assms
proof (induction df arbitrary: i ts ti lg)
  case Nil
  then show ?case by simp
next
  case (Cons dr df)
  obtain d r where dr: "dr = (d, r)" by (cases dr)
  show ?case
  proof (cases "price_of (d, r)")
    case (Inl e)
    with Cons.prems(1) show ?thesis by (simp add: dr dca_loop_raises del: dca_loop.simps)
  next
    case (Inr p)
    define e where "e = appended d p (contribution_at i rc ii) ts ti"
    have run: "dca_loop (Suc i) df rc ii (Total_Shares e) (Total_Investment e) (lg @ [e]) = Inr (lg', ts', ti')"
      using Cons.prems(1) unfolding dr dca_loop_Cons[OF Inr] e_def .
    have inv: "I (Suc i) (Total_Shares e) (Total_Investment e) (lg @ [e])"
      using Cons.prems(3)[OF Cons.prems(2) _ Inr e_def] by (simp add: dr)
    have "I (Suc i + length df) ts' ti' lg'"
    proof (rule Cons.IH[OF run inv])
      fix j d' r' p' ts ti lg e'
      assume "I j ts ti lg" "(d', r') \<in> set df" "price_of (d', r') = Inr p'"
        "e' = appended d' p' (contribution_at j rc ii) ts ti"
      then show "I (Suc j) (Total_Shares e') (Total_Investment e') (lg @ [e'])"
        using Cons.prems(3)[of j ts ti lg d' r' p' e'] by simp
    qed
    then show ?thesis by simp
  qed
qed

text \<open>When no row raises the loop returns, and what it returns is the log it started
  from followed by one entry per row. The first row that raises ends the call with its
  error. The loop reads the date of a row and the price it divides by, and nothing else.\<close>

lemma dca_loop_shape:
  "list_all (\<lambda>dr. \<not> isl (price_of dr)) df \<Longrightarrow>
   \<exists>new ts' ti'. dca_loop i df rc ii ts ti lg = Inr (lg @ new, ts', ti')
      \<and> length new = length df
      \<and> map Date new = map fst df
      \<and> map (\<lambda>e. Inr (Price e)) new = map price_of df"
proof (induction df arbitrary: i ts ti lg)
  case Nil
  then show ?case by simp
next
  case (Cons dr df)
  obtain d r where dr: "dr = (d, r)" by (cases dr)
  from Cons.prems obtain p where p: "price_of (d, r) = Inr p"
    and rest: "list_all (\<lambda>dr. \<not> isl (price_of dr)) df"
    by (cases "price_of (d, r)") (auto simp: dr)
  define e where "e = appended d p (contribution_at i rc ii) ts ti"
  from Cons.IH[OF rest, of "Suc i" "Total_Shares e" "Total_Investment e" "lg @ [e]"]
  obtain new ts' ti' where
    new: "dca_loop i (dr # df) rc ii ts ti lg = Inr ((lg @ [e]) @ new, ts', ti')"
      "length new = length df" "map Date new = map fst df"
      "map (\<lambda>e. Inr (Price e)) new = map price_of df"
    unfolding dr dca_loop_Cons[OF p] e_def by blast
  have "dca_loop i (dr # df) rc ii ts ti lg = Inr (lg @ (e # new), ts', ti')"
    using new(1) by simp
  moreover have "length (e # new) = length (dr # df)" using new(2) by simp
  moreover have "map Date (e # new) = map fst (dr # df)"
    using new(3) by (simp add: dr e_def appended_def)
  moreover have "map (\<lambda>e. Inr (Price e)) (e # new) = map price_of (dr # df)"
    using new(4) by (simp add: dr p e_def appended_def)
  ultimately show ?case by blast
qed

lemma dca_loop_first_error:
  "list_all (\<lambda>dr. \<not> isl (price_of dr)) pre \<Longrightarrow> price_of dr = Inl e \<Longrightarrow>
   dca_loop i (pre @ dr # post) rc ii ts ti lg = Inl e"
proof (induction pre arbitrary: i ts ti lg)
  case Nil
  then show ?case by (cases dr) (simp add: dca_loop_raises del: dca_loop.simps)
next
  case (Cons x pre)
  obtain d r where x: "x = (d, r)" by (cases x)
  from Cons.prems obtain p where p: "price_of (d, r) = Inr p"
    and rest: "list_all (\<lambda>dr. \<not> isl (price_of dr)) pre"
    by (cases "price_of (d, r)") (auto simp: x)
  show ?case
    using Cons.IH[OF rest Cons.prems(2)] by (simp add: x dca_loop_Cons[OF p] del: dca_loop.simps)
qed

lemma dca_loop_cong:
  "map (\<lambda>dr. (fst dr, price_of dr)) df1 = map (\<lambda>dr. (fst dr, price_of dr)) df2 \<Longrightarrow>
   dca_loop i df1 rc ii ts ti lg = dca_loop i df2 rc ii ts ti lg"
proof (induction df1 arbitrary: df2 i ts ti lg)
  case Nil
  then show ?case by simp
next
  case (Cons dr df1)
  then obtain dr2 df2' where df2: "df2 = dr2 # df2'" by (cases df2) auto
  obtain d r where dr: "dr = (d, r)" by (cases dr)
  obtain d2 r2 where dr2: "dr2 = (d2, r2)" by (cases dr2)
  from Cons.prems have d: "d2 = d" and c: "price_of (d, r2) = price_of (d, r)"
    and rest: "map (\<lambda>dr. (fst dr, price_of dr)) df1 = map (\<lambda>dr. (fst dr, price_of dr)) df2'"
    by (auto simp: df2 dr dr2)
  show ?case
  proof (cases "price_of (d, r)")
    case (Inl e)
    with c show ?thesis by (simp add: df2 dr dr2 d dca_loop_raises del: dca_loop.simps)
  next
    case (Inr p)
    with c have "price_of (d, r2) = Inr p" by simp
    with Inr show ?thesis
      by (simp add: df2 dr dr2 d dca_loop_Cons Cons.IH[OF rest] del: dca_loop.simps)
  qed
qed

text \<open>What \<open>iterrows()\<close> makes of the column \<open>Close\<close>.\<close>

lemma number_as_object: "number (as_object c) = number c"
  by (cases c) simp_all

lemma divisor_nonzero:
  "number c = Some x \<Longrightarrow> x \<noteq> Fin 0 \<Longrightarrow> divisor c = Inr x \<and> divisor (as_object c) = Inr x"
  by (cases c) auto

lemma map_of_as_object:
  "map_of (map (\<lambda>(column, c). (column, as_object c)) r) key = map_option as_object (map_of r key)"
  by (induction r) auto

lemma fst_iterrow: "fst (iterrow dr) = fst dr"
  by (simp add: iterrow_def)

lemma price_of_close: "price_of (iterrow dr) = Inr p \<Longrightarrow> close dr = Some p"
  by (auto simp: price_of_def getitem_def close_def iterrow_def map_of_as_object
      number_as_object dest!: divisor_number split: sum.splits option.splits if_splits)

lemma close_price_of:
  "close dr = Some x \<Longrightarrow> x \<noteq> Fin 0 \<Longrightarrow> price_of (iterrow dr) = Inr x"
  by (auto simp: price_of_def getitem_def close_def iterrow_def map_of_as_object
      divisor_nonzero split: option.splits)

lemma numeric_row_price_of:
  assumes "numeric_row (snd dr)" and "close dr = Some x"
  shows "price_of (iterrow dr) = Inr x"
proof -
  from assms(2) obtain c where c: "map_of (snd dr) ''Close'' = Some c" "number c = Some x"
    by (auto simp: close_def split: option.splits)
  from c(1) have "(''Close'', c) \<in> set (snd dr)" by (rule map_of_SomeD)
  with assms(1) have "is_float64 c" by (auto simp: numeric_row_def list_all_iff)
  with c(2) have "c = Float64 x" by (cases c) auto
  with c(1) assms(1) show ?thesis by (simp add: price_of_def getitem_def iterrow_def)
qed

lemma prices_close:
  "map (\<lambda>e. Inr (Price e)) lg = map price_of (iterrows df) \<Longrightarrow>
   map (\<lambda>e. Some (Price e)) lg = map close df"
proof (induction df arbitrary: lg)
  case Nil
  then show ?case by (simp add: iterrows_def)
next
  case (Cons dr df)
  then obtain e lg' where lg: "lg = e # lg'" by (cases lg) (auto simp: iterrows_def)
  from Cons.prems have "price_of (iterrow dr) = Inr (Price e)"
    and "map (\<lambda>e. Inr (Price e)) lg' = map price_of (iterrows df)"
    by (simp_all add: lg iterrows_def)
  with Cons.IH[of lg'] show ?case by (simp add: lg price_of_close)
qed

lemma calculate_dca_returns:
  assumes "list_all (\<lambda>dr. \<not> isl (price_of dr)) (iterrows df)"
  shows "\<exists>lg ts ti. calculate_dca df rc ii = Inr (lg, ts, ti)
      \<and> length lg = length df
      \<and> map Date lg = map fst df
      \<and> map (\<lambda>e. Some (Price e)) lg = map close df"
proof -
  from dca_loop_shape[OF assms, of 0 rc ii "Fin 0" "Fin 0" "[]"]
  obtain lg ts ti where run: "calculate_dca df rc ii = Inr (lg, ts, ti)"
    and len: "length lg = length (iterrows df)"
    and dates: "map Date lg = map fst (iterrows df)"
    and prices: "map (\<lambda>e. Inr (Price e)) lg = map price_of (iterrows df)"
    by (auto simp: calculate_dca_def)
  from len have "length lg = length df" by (simp add: iterrows_def)
  moreover from dates have "map Date lg = map fst df"
    by (simp add: iterrows_def fst_iterrow)
  moreover from prices have "map (\<lambda>e. Some (Price e)) lg = map close df"
    by (rule prices_close)
  ultimately show ?thesis using run by blast
qed

text \<open>What a valid input provides.\<close>

lemma valid_price_price_of:
  assumes "valid_price dr"
  shows "\<exists>p. close dr = Some (Fin p) \<and> 0 < p \<and> price_of (iterrow dr) = Inr (Fin p)"
proof -
  from assms obtain x where x: "close dr = Some x" "positive x"
    by (auto simp: valid_price_def split: option.splits)
  then obtain p where p: "x = Fin p" "0 < p" by (cases x) auto
  with x(1) have "price_of (iterrow dr) = Inr (Fin p)" by (simp add: close_price_of)
  with x(1) p show ?thesis by blast
qed

lemma valid_input_returns:
  "valid_input df rc ii \<Longrightarrow> list_all (\<lambda>dr. \<not> isl (price_of dr)) (iterrows df)"
  by (auto simp: valid_input_def list_all_iff iterrows_def dest!: valid_price_price_of)

lemma valid_inputD:
  assumes "valid_input df rc ii"
  shows "\<exists>c a. rc = Fin c \<and> 0 \<le> c \<and> ii = Fin a \<and> 0 \<le> a \<and>
    (\<forall>d r. (d, r) \<in> set (iterrows df) \<longrightarrow> (\<exists>p. price_of (d, r) = Inr (Fin p) \<and> 0 < p))"
proof -
  from assms have "nonneg rc" "nonneg ii" "list_all valid_price df"
    by (simp_all add: valid_input_def)
  from \<open>nonneg rc\<close> obtain c where c: "rc = Fin c" "0 \<le> c" by (cases rc) auto
  from \<open>nonneg ii\<close> obtain a where a: "ii = Fin a" "0 \<le> a" by (cases ii) auto
  have "\<exists>p. price_of (d, r) = Inr (Fin p) \<and> 0 < p" if "(d, r) \<in> set (iterrows df)" for d r
  proof -
    from that obtain dr where dr: "dr \<in> set df" "(d, r) = iterrow dr"
      by (auto simp: iterrows_def)
    from dr(1) \<open>list_all valid_price df\<close> have "valid_price dr" by (auto simp: list_all_iff)
    from valid_price_price_of[OF this] dr(2) show ?thesis by auto
  qed
  with c a show ?thesis by blast
qed

lemma contribution_at_Fin:
  "contribution_at i (Fin c) (Fin a) = Fin (if i = 0 then c + a else c)"
  by (simp add: contribution_at_def)

lemma appended_sel:
  "Date (appended d p c ts ti) = d"
  "Price (appended d p c ts ti) = p"
  "Total_Shares (appended d p c ts ti) = fadd ts (fdiv c p)"
  "Total_Investment (appended d p c ts ti) = fadd ti c"
  "Portfolio_Value (appended d p c ts ti) = fmul (fadd ts (fdiv c p)) p"
  by (simp_all add: appended_def)

text \<open>Invariants of the loop: the totals are those of the last entry; they are finite on
  valid inputs; the total invested follows the closed formula.\<close>

lemma dca_loop_last:
  assumes run: "dca_loop i df rc ii ts ti lg = Inr (lg', ts', ti')"
    and init: "lg \<noteq> [] \<longrightarrow> ts = Total_Shares (last lg) \<and> ti = Total_Investment (last lg)"
  shows "lg' \<noteq> [] \<longrightarrow> ts' = Total_Shares (last lg') \<and> ti' = Total_Investment (last lg')"
  by (rule dca_loop_invariant
        [where I = "\<lambda>i ts ti lg. lg \<noteq> [] \<longrightarrow>
            ts = Total_Shares (last lg) \<and> ti = Total_Investment (last lg)", OF run init])
     simp

lemma dca_loop_finite:
  assumes valid: "valid_input df rc ii"
    and run: "dca_loop i (iterrows df) rc ii ts ti lg = Inr (lg', ts', ti')"
    and init: "is_finite ts \<and> is_finite ti"
  shows "is_finite ts' \<and> is_finite ti'"
proof -
  from valid_inputD[OF valid] obtain c a where ca: "rc = Fin c" "ii = Fin a"
    and prices: "\<And>d r. (d, r) \<in> set (iterrows df) \<Longrightarrow> \<exists>p. price_of (d, r) = Inr (Fin p) \<and> 0 < p"
    by blast
  show ?thesis
  proof (rule dca_loop_invariant
      [where I = "\<lambda>i ts ti lg. is_finite ts \<and> is_finite ti", OF run init])
    fix j d r p ts ti and lg :: "log_entry list" and e
    assume inv: "is_finite ts \<and> is_finite ti" and mem: "(d, r) \<in> set (iterrows df)"
      and p: "price_of (d, r) = Inr p"
      and e: "e = appended d p (contribution_at j rc ii) ts ti"
    from prices[OF mem] p obtain q where q: "p = Fin q" "0 < q" by auto
    from inv obtain s t where st: "ts = Fin s" "ti = Fin t"
      by (cases ts; cases ti) auto
    show "is_finite (Total_Shares e) \<and> is_finite (Total_Investment e)"
      using q by (simp add: e appended_sel ca contribution_at_Fin st)
  qed
qed

lemma dca_loop_invested:
  assumes run: "dca_loop i df (Fin c) (Fin a) ts ti lg = Inr (lg', ts', ti')"
    and init: "length lg = i \<and> ti = Fin (if i = 0 then 0 else c * real i + a) \<and>
       (\<forall>k<length lg. Total_Investment (lg ! k) = Fin (c * real (k + 1) + a))"
  shows "length lg' = i + length df \<and>
       ti' = Fin (if i + length df = 0 then 0 else c * real (i + length df) + a) \<and>
       (\<forall>k<length lg'. Total_Investment (lg' ! k) = Fin (c * real (k + 1) + a))"
proof (rule dca_loop_invariant
    [where I = "\<lambda>i ts ti lg. length lg = i \<and> ti = Fin (if i = 0 then 0 else c * real i + a) \<and>
       (\<forall>k<length lg. Total_Investment (lg ! k) = Fin (c * real (k + 1) + a))", OF run init])
  fix j d r p ts ti and lg :: "log_entry list" and e
  assume inv: "length lg = j \<and> ti = Fin (if j = 0 then 0 else c * real j + a) \<and>
       (\<forall>k<length lg. Total_Investment (lg ! k) = Fin (c * real (k + 1) + a))"
    and e: "e = appended d p (contribution_at j (Fin c) (Fin a)) ts ti"
  have ti_e: "Total_Investment e = Fin (c * real (Suc j) + a)"
    using inv by (simp add: e appended_sel contribution_at_Fin algebra_simps)
  have "Total_Investment ((lg @ [e]) ! k) = Fin (c * real (k + 1) + a)"
    if "k < length (lg @ [e])" for k
  proof (cases "k < length lg")
    case True
    then show ?thesis using inv by (simp add: nth_append)
  next
    case False
    with that inv have "k = j" by simp
    then show ?thesis using inv ti_e by (simp add: nth_append)
  qed
  then show "length (lg @ [e]) = Suc j \<and>
       Total_Investment e = Fin (if Suc j = 0 then 0 else c * real (Suc j) + a) \<and>
       (\<forall>k<length (lg @ [e]). Total_Investment ((lg @ [e]) ! k) = Fin (c * real (k + 1) + a))"
    using inv ti_e by simp
qed

text \<open>Values that are not finite stay so.\<close>

lemma fdiv_zero_not_finite: "\<not> is_finite (fdiv x (Fin 0))"
  by (cases x) (simp_all add: inf_of_sign_def)

lemma fadd_not_finite: "\<not> is_finite x \<or> \<not> is_finite y \<Longrightarrow> \<not> is_finite (fadd x y)"
  by (cases x; cases y) simp_all

lemma fmul_not_finite: "\<not> is_finite x \<Longrightarrow> \<not> is_finite (fmul x (Fin 100))"
  by (cases x) (simp_all add: inf_of_sign_def)

text \<open>Invariants on valid inputs: the log is non-decreasing, and every entry's portfolio
  value is its shares times its price. In any run, a price of zero leaves a total of shares
  that is not finite.\<close>

lemma dca_loop_non_decreasing:
  assumes valid: "valid_input df rc ii"
    and run: "dca_loop i (iterrows df) rc ii ts ti lg = Inr (lg', ts', ti')"
    and init: "is_finite ts \<and> is_finite ti \<and>
       (lg \<noteq> [] \<longrightarrow> ts = Total_Shares (last lg) \<and> ti = Total_Investment (last lg)) \<and>
       successively non_decreasing lg"
  shows "successively non_decreasing lg'"
proof -
  from valid_inputD[OF valid] obtain c a where ca: "rc = Fin c" "0 \<le> c" "ii = Fin a" "0 \<le> a"
    and prices: "\<And>d r. (d, r) \<in> set (iterrows df) \<Longrightarrow> \<exists>p. price_of (d, r) = Inr (Fin p) \<and> 0 < p"
    by blast
  have "is_finite ts' \<and> is_finite ti' \<and>
       (lg' \<noteq> [] \<longrightarrow> ts' = Total_Shares (last lg') \<and> ti' = Total_Investment (last lg')) \<and>
       successively non_decreasing lg'"
  proof (rule dca_loop_invariant
      [where I = "\<lambda>i ts ti lg. is_finite ts \<and> is_finite ti \<and>
       (lg \<noteq> [] \<longrightarrow> ts = Total_Shares (last lg) \<and> ti = Total_Investment (last lg)) \<and>
       successively non_decreasing lg", OF run init])
    fix j d r p ts ti and lg :: "log_entry list" and e
    assume inv: "is_finite ts \<and> is_finite ti \<and>
       (lg \<noteq> [] \<longrightarrow> ts = Total_Shares (last lg) \<and> ti = Total_Investment (last lg)) \<and>
       successively non_decreasing lg"
      and mem: "(d, r) \<in> set (iterrows df)" and p: "price_of (d, r) = Inr p"
      and e: "e = appended d p (contribution_at j rc ii) ts ti"
    from prices[OF mem] p obtain q where q: "p = Fin q" "0 < q" by auto
    from inv obtain s t where st: "ts = Fin s" "ti = Fin t"
      by (cases ts; cases ti) auto
    define x where "x = (if j = 0 then c + a else c)"
    have x: "0 \<le> x" "contribution_at j rc ii = Fin x"
      using ca by (simp_all add: x_def contribution_at_Fin)
    have sel: "Total_Shares e = Fin (s + x / q)" "Total_Investment e = Fin (t + x)"
      using q by (simp_all add: e appended_sel x st)
    have "0 \<le> x / q" using x(1) q(2) by simp
    have step: "non_decreasing (last lg) e" if "lg \<noteq> []"
    proof -
      from that inv have "Total_Shares (last lg) = Fin s" "Total_Investment (last lg) = Fin t"
        by (simp_all add: st)
      with \<open>0 \<le> x / q\<close> x(1) show ?thesis
        by (simp add: non_decreasing_def sel)
    qed
    have "successively non_decreasing (lg @ [e])"
      using inv step by (auto simp: successively_append_iff)
    then show "is_finite (Total_Shares e) \<and> is_finite (Total_Investment e) \<and>
       (lg @ [e] \<noteq> [] \<longrightarrow> Total_Shares e = Total_Shares (last (lg @ [e])) \<and>
          Total_Investment e = Total_Investment (last (lg @ [e]))) \<and>
       successively non_decreasing (lg @ [e])"
      by (simp add: sel)
  qed
  then show ?thesis by blast
qed

lemma dca_loop_portfolio_value:
  assumes valid: "valid_input df rc ii"
    and run: "dca_loop i (iterrows df) rc ii ts ti lg = Inr (lg', ts', ti')"
    and init: "is_finite ts \<and> is_finite ti \<and>
       (\<forall>e\<in>set lg. feq (Portfolio_Value e) (fmul (Total_Shares e) (Price e)))"
  shows "\<forall>e\<in>set lg'. feq (Portfolio_Value e) (fmul (Total_Shares e) (Price e))"
proof -
  from valid_inputD[OF valid] obtain c a where ca: "rc = Fin c" "ii = Fin a"
    and prices: "\<And>d r. (d, r) \<in> set (iterrows df) \<Longrightarrow> \<exists>p. price_of (d, r) = Inr (Fin p) \<and> 0 < p"
    by blast
  have "is_finite ts' \<and> is_finite ti' \<and>
       (\<forall>e\<in>set lg'. feq (Portfolio_Value e) (fmul (Total_Shares e) (Price e)))"
  proof (rule dca_loop_invariant
      [where I = "\<lambda>i ts ti lg. is_finite ts \<and> is_finite ti \<and>
       (\<forall>e\<in>set lg. feq (Portfolio_Value e) (fmul (Total_Shares e) (Price e)))", OF run init])
    fix j d r p ts ti and lg :: "log_entry list" and e
    assume inv: "is_finite ts \<and> is_finite ti \<and>
       (\<forall>e\<in>set lg. feq (Portfolio_Value e) (fmul (Total_Shares e) (Price e)))"
      and mem: "(d, r) \<in> set (iterrows df)" and p: "price_of (d, r) = Inr p"
      and e: "e = appended d p (contribution_at j rc ii) ts ti"
    from prices[OF mem] p obtain q where q: "p = Fin q" "0 < q" by auto
    from inv obtain s t where st: "ts = Fin s" "ti = Fin t"
      by (cases ts; cases ti) auto
    have "feq (Portfolio_Value e) (fmul (Total_Shares e) (Price e))"
      using q by (simp add: e appended_sel ca contribution_at_Fin st feq_def)
    moreover have "is_finite (Total_Shares e) \<and> is_finite (Total_Investment e)"
      using q by (simp add: e appended_sel ca contribution_at_Fin st)
    ultimately show "is_finite (Total_Shares e) \<and> is_finite (Total_Investment e) \<and>
       (\<forall>e\<in>set (lg @ [e]). feq (Portfolio_Value e) (fmul (Total_Shares e) (Price e)))"
      using inv by simp
  qed
  then show ?thesis by blast
qed

lemma dca_loop_zero_price:
  assumes run: "dca_loop i df rc ii ts ti lg = Inr (lg', ts', ti')"
    and init: "((\<exists>e\<in>set lg. Price e = Fin 0) \<longrightarrow> \<not> is_finite ts) \<and>
       (\<forall>e\<in>set lg. Price e = Fin 0 \<longrightarrow> \<not> is_finite (Total_Shares e))"
  shows "((\<exists>e\<in>set lg'. Price e = Fin 0) \<longrightarrow> \<not> is_finite ts') \<and>
       (\<forall>e\<in>set lg'. Price e = Fin 0 \<longrightarrow> \<not> is_finite (Total_Shares e))"
proof (rule dca_loop_invariant
    [where I = "\<lambda>i ts ti lg. ((\<exists>e\<in>set lg. Price e = Fin 0) \<longrightarrow> \<not> is_finite ts) \<and>
       (\<forall>e\<in>set lg. Price e = Fin 0 \<longrightarrow> \<not> is_finite (Total_Shares e))", OF run init])
  fix j d r p ts ti and lg :: "log_entry list" and e
  assume inv: "((\<exists>e\<in>set lg. Price e = Fin 0) \<longrightarrow> \<not> is_finite ts) \<and>
       (\<forall>e\<in>set lg. Price e = Fin 0 \<longrightarrow> \<not> is_finite (Total_Shares e))"
    and e: "e = appended d p (contribution_at j rc ii) ts ti"
  have here: "Price e = Fin 0 \<Longrightarrow> \<not> is_finite (Total_Shares e)"
    by (simp add: e appended_sel fadd_not_finite fdiv_zero_not_finite)
  have before: "\<exists>e\<in>set lg. Price e = Fin 0 \<Longrightarrow> \<not> is_finite (Total_Shares e)"
    using inv by (simp add: e appended_sel fadd_not_finite)
  show "((\<exists>e\<in>set (lg @ [e]). Price e = Fin 0) \<longrightarrow> \<not> is_finite (Total_Shares e)) \<and>
       (\<forall>e\<in>set (lg @ [e]). Price e = Fin 0 \<longrightarrow> \<not> is_finite (Total_Shares e))"
    using inv here before by auto
qed

lemma is_finite_feq: "is_finite x \<Longrightarrow> x = y \<Longrightarrow> feq x y"
  by (cases x) (auto simp: feq_def)

text \<open>Frames on which no row raises, and the row of an object frame that does.\<close>

lemma valid_prices_return:
  "list_all valid_price df \<Longrightarrow> list_all (\<lambda>dr. \<not> isl (price_of dr)) (iterrows df)"
  by (auto simp: list_all_iff iterrows_def dest!: valid_price_price_of)

lemma object_row_zero:
  assumes "\<not> numeric_row (snd dr)" and "close dr = Some (Fin 0)"
  shows "price_of (iterrow dr) = Inl ZeroDivisionError"
proof -
  from assms(2) obtain c where c: "map_of (snd dr) ''Close'' = Some c" "number c = Some (Fin 0)"
    by (auto simp: close_def split: option.splits)
  from c(2) have "as_object c = PyFloat (Fin 0)" by (cases c) auto
  with c(1) assms(1) show ?thesis
    by (simp add: price_of_def getitem_def iterrow_def map_of_as_object)
qed

lemma iterrows_append: "iterrows (xs @ ys) = iterrows xs @ iterrows ys"
  by (simp add: iterrows_def)

lemma iterrows_Cons: "iterrows (x # xs) = iterrow x # iterrows xs"
  by (simp add: iterrows_def)

lemma nonzero_prices_return:
  "list_all (\<lambda>dr. close dr \<noteq> None \<and> close dr \<noteq> Some (Fin 0)) df \<Longrightarrow>
   list_all (\<lambda>dr. \<not> isl (price_of dr)) (iterrows df)"
  by (auto simp: list_all_iff iterrows_def close_price_of)

lemma numeric_rows_return:
  "list_all (\<lambda>dr. numeric_row (snd dr) \<and> close dr \<noteq> None) df \<Longrightarrow>
   list_all (\<lambda>dr. \<not> isl (price_of dr)) (iterrows df)"
  by (auto simp: list_all_iff iterrows_def numeric_row_price_of)

lemma same_prices_delivered:
  assumes "dates_and_prices df1 = dates_and_prices df2"
    and "list_all (\<lambda>dr. close dr \<noteq> None \<and> close dr \<noteq> Some (Fin 0)) df1"
  shows "map (\<lambda>dr. (fst dr, price_of dr)) (iterrows df1) =
         map (\<lambda>dr. (fst dr, price_of dr)) (iterrows df2)"
  using assms
proof (induction df1 arbitrary: df2)
  case Nil
  then show ?case by (simp add: dates_and_prices_def iterrows_def)
next
  case (Cons dr df1)
  then obtain dr2 df2' where df2: "df2 = dr2 # df2'"
    by (cases df2) (auto simp: dates_and_prices_def)
  from Cons.prems(1) have fst: "fst dr2 = fst dr" and cl: "close dr2 = close dr"
    and rest: "dates_and_prices df1 = dates_and_prices df2'"
    by (simp_all add: df2 dates_and_prices_def)
  from Cons.prems(2) obtain x where x: "close dr = Some x" "x \<noteq> Fin 0"
    and nz: "list_all (\<lambda>dr. close dr \<noteq> None \<and> close dr \<noteq> Some (Fin 0)) df1"
    by auto
  from x cl have "price_of (iterrow dr) = Inr x" "price_of (iterrow dr2) = Inr x"
    by (simp_all add: close_price_of)
  with Cons.IH[OF rest nz] fst show ?case
    by (simp add: df2 iterrows_Cons fst_iterrow)
qed

text \<open>The definitions a run on a given frame unfolds.\<close>

lemmas run_defs = calculate_dca_def iterrows_def iterrow_def numeric_row_def getitem_def Let_def

section \<open>The reference scenario\<close>

text \<open>
  C1. With the prices 10, 20 and 40 at three successive dates, a regular contribution
  of 100 and an initial investment of 50, \<open>calculate_dca\<close> returns 22.5 total shares and
  350 total invested; the log holds 15 shares and 150 invested after the first interval,
  20 shares and 250 invested after the second, and 22.5 shares and 350 invested in its
  last entry.
\<close>

theorem calculate_dca_basic:
  "calculate_dca (close_frame 0 [10, 20, 40]) (Fin 100) (Fin 50) =
     Inr ([\<lparr>Date = 0, Price = Fin 10, Total_Shares = Fin 15,
             Total_Investment = Fin 150, Portfolio_Value = Fin 150\<rparr>,
           \<lparr>Date = 1, Price = Fin 20, Total_Shares = Fin 20,
             Total_Investment = Fin 250, Portfolio_Value = Fin 400\<rparr>,
           \<lparr>Date = 2, Price = Fin 40, Total_Shares = Fin 22.5,
             Total_Investment = Fin 350, Portfolio_Value = Fin 900\<rparr>],
          Fin 22.5, Fin 350)"
  by (simp add: run_defs)

section \<open>Conservation of the invested capital\<close>

text \<open>
  C2. The specification's formula P2 gives the total invested after interval \<open>i\<close> as
  \<open>regularContribution * (i + 1)\<close>, plus the initial investment only when \<open>i\<close> is
  \<open>0\<close>. The loop adds the initial investment to the running total in the first
  iteration and never takes it out again, so with an initial investment of 50 and a
  regular contribution of 100 the second entry holds 250, where the formula gives 200.
\<close>

theorem total_invested_formula_counterexample:
  "calculate_dca (close_frame 0 [10, 20]) (Fin 100) (Fin 50) =
     Inr ([\<lparr>Date = 0, Price = Fin 10, Total_Shares = Fin 15,
             Total_Investment = Fin 150, Portfolio_Value = Fin 150\<rparr>,
           \<lparr>Date = 1, Price = Fin 20, Total_Shares = Fin 20,
             Total_Investment = Fin 250, Portfolio_Value = Fin 400\<rparr>],
          Fin 20, Fin 250)
   \<and> valid_input (close_frame 0 [10, 20]) (Fin 100) (Fin 50)
   \<and> spec_total_invested (Fin 100) (Fin 50) 1 = Fin 200
   \<and> \<not> feq (Fin 250) (spec_total_invested (Fin 100) (Fin 50) 1)"
  by (simp add: run_defs valid_input_def valid_price_def close_def
      spec_total_invested_def feq_def)

text \<open>
  C2, as the loop computes it. For every valid input the call returns a log with one
  entry per row, and entry \<open>k\<close> holds a total invested equal to
  \<open>regular_contribution * (k + 1) + initial_investment\<close>: the initial investment stays
  in the total at every later interval.
\<close>

theorem total_invested_cumulative:
  assumes "valid_input df rc ii"
  shows "\<exists>lg ts ti. calculate_dca df rc ii = Inr (lg, ts, ti) \<and> length lg = length df \<and>
     (\<forall>k<length lg.
        feq (Total_Investment (lg ! k)) (fadd (fmul rc (Fin (real (k + 1)))) ii))"
proof -
  from valid_inputD[OF assms] obtain c a where ca: "rc = Fin c" "ii = Fin a" by blast
  from calculate_dca_returns[OF valid_input_returns[OF assms], of rc ii]
  obtain lg ts ti where run: "calculate_dca df rc ii = Inr (lg, ts, ti)"
    and len: "length lg = length df" by blast
  from run have loop: "dca_loop 0 (iterrows df) (Fin c) (Fin a) (Fin 0) (Fin 0) [] = Inr (lg, ts, ti)"
    by (simp add: calculate_dca_def ca)
  have "\<forall>k<length lg. Total_Investment (lg ! k) = Fin (c * real (k + 1) + a)"
    using dca_loop_invested[OF loop] by simp
  then have "\<forall>k<length lg.
        feq (Total_Investment (lg ! k)) (fadd (fmul rc (Fin (real (k + 1)))) ii)"
    by (simp add: ca feq_def)
  with run len show ?thesis by blast
qed

theorem total_invested_cumulative_witness:
  "valid_input (close_frame 0 [10, 20]) (Fin 100) (Fin 50) \<and>
   (\<exists>lg ts ti. calculate_dca (close_frame 0 [10, 20]) (Fin 100) (Fin 50) = Inr (lg, ts, ti) \<and>
      length lg = 2 \<and>
      feq (Total_Investment (lg ! 1)) (fadd (fmul (Fin 100) (Fin (real (1 + 1)))) (Fin 50)))"
proof -
  have v: "valid_input (close_frame 0 [10, 20]) (Fin 100) (Fin 50)"
    by (simp add: valid_input_def valid_price_def close_def)
  from total_invested_cumulative[OF v] obtain lg ts ti where
    run: "calculate_dca (close_frame 0 [10, 20]) (Fin 100) (Fin 50) = Inr (lg, ts, ti)"
    and len: "length lg = length (close_frame 0 [10, 20])"
    and inv: "\<forall>k<length lg.
        feq (Total_Investment (lg ! k)) (fadd (fmul (Fin 100) (Fin (real (k + 1)))) (Fin 50))"
    by blast
  from len have len2: "length lg = 2" by simp
  with inv[rule_format, of 1] v run show ?thesis by auto
qed

section \<open>Prices that are not positive\<close>

text \<open>
  C3. The specification asks for a \<open>NonPositivePrice\<close> failure, and no log, as soon as
  a price is zero or negative. The loop does not look at the sign of the price: on a
  frame with the single numeric column \<open>Close\<close>, the single price \<open>-10\<close> returns a log
  whose entry holds \<open>-10\<close> shares, and the single price \<open>0\<close> returns a log whose entry
  holds infinitely many shares and a portfolio value that is NaN.
\<close>

theorem non_positive_price_counterexample:
  "calculate_dca [(0, [(''Close'', Float64 (Fin (- 10)))])] (Fin 100) (Fin 0) =
     Inr ([\<lparr>Date = 0, Price = Fin (- 10), Total_Shares = Fin (- 10),
             Total_Investment = Fin 100, Portfolio_Value = Fin 100\<rparr>],
          Fin (- 10), Fin 100)
   \<and> calculate_dca [(0, [(''Close'', Float64 (Fin 0))])] (Fin 100) (Fin 0) =
     Inr ([\<lparr>Date = 0, Price = Fin 0, Total_Shares = PInf,
             Total_Investment = Fin 100, Portfolio_Value = NaN\<rparr>],
          PInf, Fin 100)"
  by (simp add: run_defs inf_of_sign_def)

text \<open>
  C3, as the loop computes it, in two parts. On a frame whose columns are all numeric
  and include \<open>Close\<close>, a series with a price that is zero or negative returns the whole
  log, one entry per row with the row's date and price, and a price of zero makes the
  total of shares of its entry, and the total of shares returned, an infinity or NaN. On
  a frame row with a column that is not numeric, a price of zero that follows rows with
  prices other than zero raises \<open>ZeroDivisionError\<close>, and no log is returned.
\<close>

theorem non_positive_price_unchecked:
  "(list_all (\<lambda>dr. numeric_row (snd dr) \<and> close dr \<noteq> None) df \<and>
    (d, r) \<in> set df \<and> close (d, r) = Some (Fin p) \<and> p \<le> 0 \<longrightarrow>
      (\<exists>lg ts ti. calculate_dca df rc ii = Inr (lg, ts, ti)
         \<and> length lg = length df
         \<and> map Date lg = map fst df
         \<and> map (\<lambda>e. Some (Price e)) lg = map close df
         \<and> (p = 0 \<longrightarrow> \<not> is_finite ts \<and>
              (\<forall>e\<in>set lg. Price e = Fin 0 \<longrightarrow> \<not> is_finite (Total_Shares e)))))
   \<and> (list_all (\<lambda>dr. close dr \<noteq> None \<and> close dr \<noteq> Some (Fin 0)) pre \<and>
      \<not> numeric_row r' \<and> close (d', r') = Some (Fin 0) \<longrightarrow>
        calculate_dca (pre @ (d', r') # post) rc ii = Inl ZeroDivisionError)"
proof (intro conjI impI)
  assume h: "list_all (\<lambda>dr. numeric_row (snd dr) \<and> close dr \<noteq> None) df \<and>
    (d, r) \<in> set df \<and> close (d, r) = Some (Fin p) \<and> p \<le> 0"
  from calculate_dca_returns[OF numeric_rows_return, of df rc ii] h
  obtain lg ts ti where run: "calculate_dca df rc ii = Inr (lg, ts, ti)"
    and len: "length lg = length df"
    and dates: "map Date lg = map fst df"
    and prices: "map (\<lambda>e. Some (Price e)) lg = map close df" by blast
  from run have loop: "dca_loop 0 (iterrows df) rc ii (Fin 0) (Fin 0) [] = Inr (lg, ts, ti)"
    by (simp add: calculate_dca_def)
  have zero: "((\<exists>e\<in>set lg. Price e = Fin 0) \<longrightarrow> \<not> is_finite ts) \<and>
       (\<forall>e\<in>set lg. Price e = Fin 0 \<longrightarrow> \<not> is_finite (Total_Shares e))"
    by (rule dca_loop_zero_price[OF loop]) simp
  have "\<exists>e\<in>set lg. Price e = Fin 0" if "p = 0"
  proof -
    from h that have "Some (Fin 0) \<in> set (map close df)" by force
    with prices have "Some (Fin 0) \<in> set (map (\<lambda>e. Some (Price e)) lg)" by simp
    then show ?thesis by auto
  qed
  with zero run len dates prices
  show "\<exists>lg ts ti. calculate_dca df rc ii = Inr (lg, ts, ti)
         \<and> length lg = length df
         \<and> map Date lg = map fst df
         \<and> map (\<lambda>e. Some (Price e)) lg = map close df
         \<and> (p = 0 \<longrightarrow> \<not> is_finite ts \<and>
              (\<forall>e\<in>set lg. Price e = Fin 0 \<longrightarrow> \<not> is_finite (Total_Shares e)))"
    by blast
next
  assume h: "list_all (\<lambda>dr. close dr \<noteq> None \<and> close dr \<noteq> Some (Fin 0)) pre \<and>
      \<not> numeric_row r' \<and> close (d', r') = Some (Fin 0)"
  then have pre: "list_all (\<lambda>dr. \<not> isl (price_of dr)) (iterrows pre)"
    by (simp add: nonzero_prices_return)
  from h have "price_of (iterrow (d', r')) = Inl ZeroDivisionError"
    by (simp add: object_row_zero)
  from dca_loop_first_error[OF pre this]
  show "calculate_dca (pre @ (d', r') # post) rc ii = Inl ZeroDivisionError"
    by (simp add: calculate_dca_def iterrows_append iterrows_Cons)
qed

theorem non_positive_price_unchecked_witness:
  "list_all (\<lambda>dr. numeric_row (snd dr) \<and> close dr \<noteq> None)
     [(0, [(''Close'', Float64 (Fin 10))]), (1, [(''Close'', Float64 (Fin 0))])]
   \<and> (1, [(''Close'', Float64 (Fin 0))]) \<in>
       set [(0, [(''Close'', Float64 (Fin 10))]), (1, [(''Close'', Float64 (Fin 0))])]
   \<and> close (1, [(''Close'', Float64 (Fin 0))]) = Some (Fin 0) \<and> (0::real) \<le> 0
   \<and> (\<exists>lg ts ti.
        calculate_dca [(0, [(''Close'', Float64 (Fin 10))]), (1, [(''Close'', Float64 (Fin 0))])]
          (Fin 100) (Fin 50) = Inr (lg, ts, ti)
        \<and> length lg = 2 \<and> \<not> is_finite ts)
   \<and> list_all (\<lambda>dr. close dr \<noteq> None \<and> close dr \<noteq> Some (Fin 0))
        [(0, [(''Close'', Float64 (Fin 10)), (''Name'', PyStr ''x'')])]
   \<and> \<not> numeric_row [(''Close'', Float64 (Fin 0)), (''Name'', PyStr ''x'')]
   \<and> close (1, [(''Close'', Float64 (Fin 0)), (''Name'', PyStr ''x'')]) = Some (Fin 0)
   \<and> calculate_dca
        ([(0, [(''Close'', Float64 (Fin 10)), (''Name'', PyStr ''x'')])] @
         (1, [(''Close'', Float64 (Fin 0)), (''Name'', PyStr ''x'')]) # [])
        (Fin 100) (Fin 50) = Inl ZeroDivisionError"
proof -
  have 1: "list_all (\<lambda>dr. numeric_row (snd dr) \<and> close dr \<noteq> None)
     [(0, [(''Close'', Float64 (Fin 10))]), (1, [(''Close'', Float64 (Fin 0))])]
   \<and> (1, [(''Close'', Float64 (Fin 0))]) \<in>
       set [(0, [(''Close'', Float64 (Fin 10))]), (1, [(''Close'', Float64 (Fin 0))])]
   \<and> close (1, [(''Close'', Float64 (Fin 0))]) = Some (Fin 0) \<and> (0::real) \<le> 0"
    by (simp add: numeric_row_def close_def)
  have 2: "list_all (\<lambda>dr. close dr \<noteq> None \<and> close dr \<noteq> Some (Fin 0))
        [(0, [(''Close'', Float64 (Fin 10)), (''Name'', PyStr ''x'')])]
   \<and> \<not> numeric_row [(''Close'', Float64 (Fin 0)), (''Name'', PyStr ''x'')]
   \<and> close (1, [(''Close'', Float64 (Fin 0)), (''Name'', PyStr ''x'')]) = Some (Fin 0)"
    by (simp add: numeric_row_def close_def)
  note inst = non_positive_price_unchecked
    [of "[(0, [(''Close'', Float64 (Fin 10))]), (1, [(''Close'', Float64 (Fin 0))])]"
        "1" "[(''Close'', Float64 (Fin 0))]" "0" "Fin 100" "Fin 50"
        "[(0, [(''Close'', Float64 (Fin 10)), (''Name'', PyStr ''x'')])]"
        "[(''Close'', Float64 (Fin 0)), (''Name'', PyStr ''x'')]" "1" "[]"]
  from inst 1 have
    "\<exists>lg ts ti.
        calculate_dca [(0, [(''Close'', Float64 (Fin 10))]), (1, [(''Close'', Float64 (Fin 0))])]
          (Fin 100) (Fin 50) = Inr (lg, ts, ti)
        \<and> length lg = 2 \<and> \<not> is_finite ts"
    by auto
  moreover from inst 2 have
    "calculate_dca
        ([(0, [(''Close'', Float64 (Fin 10)), (''Name'', PyStr ''x'')])] @
         (1, [(''Close'', Float64 (Fin 0)), (''Name'', PyStr ''x'')]) # [])
        (Fin 100) (Fin 50) = Inl ZeroDivisionError"
    by blast
  ultimately show ?thesis using 1 2 by blast
qed

section \<open>Negative contributions\<close>

text \<open>
  C4. The specification asks for an \<open>InvalidParameter\<close> failure when the regular
  contribution or the initial investment is negative. The function has no check of its
  parameters: with a regular contribution of \<open>-100\<close>, or with an initial investment of
  \<open>-50\<close>, it returns a log.
\<close>

theorem negative_parameter_counterexample:
  "calculate_dca (close_frame 0 [10]) (Fin (- 100)) (Fin 0) =
     Inr ([\<lparr>Date = 0, Price = Fin 10, Total_Shares = Fin (- 10),
             Total_Investment = Fin (- 100), Portfolio_Value = Fin (- 100)\<rparr>],
          Fin (- 10), Fin (- 100))
   \<and> calculate_dca (close_frame 0 [10]) (Fin 100) (Fin (- 50)) =
     Inr ([\<lparr>Date = 0, Price = Fin 10, Total_Shares = Fin 5,
             Total_Investment = Fin 50, Portfolio_Value = Fin 50\<rparr>],
          Fin 5, Fin 50)"
  by (simp add: run_defs)

text \<open>
  C4, as the function computes it. For every frame whose prices are all finite and
  above zero, and finite parameters of which one is negative, the call raises nothing and
  returns a log with one entry per row, with the row's date and price.
\<close>

theorem negative_parameters_unchecked:
  assumes "list_all valid_price df" and "c < 0 \<or> a < 0"
  shows "\<exists>lg ts ti. calculate_dca df (Fin c) (Fin a) = Inr (lg, ts, ti)
      \<and> length lg = length df
      \<and> map Date lg = map fst df
      \<and> map (\<lambda>e. Some (Price e)) lg = map close df"
  by (rule calculate_dca_returns[OF valid_prices_return[OF assms(1)]])

theorem negative_parameters_unchecked_witness:
  "list_all valid_price (close_frame 0 [10, 20])
   \<and> ((- 100::real) < 0 \<or> (0::real) < 0)
   \<and> (\<exists>lg ts ti. calculate_dca (close_frame 0 [10, 20]) (Fin (- 100)) (Fin 0) = Inr (lg, ts, ti)
      \<and> length lg = 2
      \<and> map Date lg = [0, 1]
      \<and> map (\<lambda>e. Some (Price e)) lg = [Some (Fin 10), Some (Fin 20)])"
proof -
  have 1: "list_all valid_price (close_frame 0 [10, 20])"
    by (simp add: valid_price_def close_def)
  have 2: "(- 100::real) < 0 \<or> (0::real) < 0" by simp
  from negative_parameters_unchecked[OF 1 2] 1 2 show ?thesis
    by (simp add: close_def numeral_2_eq_2)
qed

section \<open>Monotonicity\<close>

text \<open>
  C5. For every valid input the call returns a log in which neither the total of shares
  nor the total invested decreases from an entry to the next.
\<close>

theorem ledger_non_decreasing:
  assumes "valid_input df rc ii"
  shows "\<exists>lg ts ti. calculate_dca df rc ii = Inr (lg, ts, ti) \<and>
     (\<forall>k. k + 1 < length lg \<longrightarrow>
        fle (Total_Shares (lg ! k)) (Total_Shares (lg ! (k + 1))) \<and>
        fle (Total_Investment (lg ! k)) (Total_Investment (lg ! (k + 1))))"
proof -
  from calculate_dca_returns[OF valid_input_returns[OF assms], of rc ii]
  obtain lg ts ti where run: "calculate_dca df rc ii = Inr (lg, ts, ti)" by blast
  from run have loop: "dca_loop 0 (iterrows df) rc ii (Fin 0) (Fin 0) [] = Inr (lg, ts, ti)"
    by (simp add: run_defs)
  have "successively non_decreasing lg"
    by (rule dca_loop_non_decreasing[OF assms loop]) simp
  then have "\<forall>k. k + 1 < length lg \<longrightarrow> non_decreasing (lg ! k) (lg ! (k + 1))"
    by (simp add: successively_conv_nth)
  with run show ?thesis by (auto simp: non_decreasing_def)
qed

theorem ledger_non_decreasing_witness:
  "valid_input (close_frame 0 [10, 20, 40]) (Fin 100) (Fin 50) \<and>
   (\<exists>lg ts ti. calculate_dca (close_frame 0 [10, 20, 40]) (Fin 100) (Fin 50) = Inr (lg, ts, ti) \<and>
      fle (Total_Shares (lg ! 1)) (Total_Shares (lg ! 2)) \<and>
      fle (Total_Investment (lg ! 1)) (Total_Investment (lg ! 2)))"
proof -
  have v: "valid_input (close_frame 0 [10, 20, 40]) (Fin 100) (Fin 50)"
    by (simp add: valid_input_def valid_price_def close_def)
  from ledger_non_decreasing[OF v] obtain lg ts ti where
    run: "calculate_dca (close_frame 0 [10, 20, 40]) (Fin 100) (Fin 50) = Inr (lg, ts, ti)"
    and mono: "\<forall>k. k + 1 < length lg \<longrightarrow>
        fle (Total_Shares (lg ! k)) (Total_Shares (lg ! (k + 1))) \<and>
        fle (Total_Investment (lg ! k)) (Total_Investment (lg ! (k + 1)))"
    by blast
  from run have "length lg = 3" by (auto simp: run_defs)
  with mono[rule_format, of 1] have
    "fle (Total_Shares (lg ! 1)) (Total_Shares (lg ! 2)) \<and>
     fle (Total_Investment (lg ! 1)) (Total_Investment (lg ! 2))"
    by (simp add: numeral_2_eq_2)
  with v run show ?thesis by blast
qed

section \<open>Length and order of the log\<close>

text \<open>
  C6. For every valid input the call returns a log with exactly one entry per row of the
  frame, in the order of the rows: the dates and the prices of the entries are those of
  the rows. For the empty frame it returns the empty log with both totals zero, and no
  error.
\<close>

theorem ledger_one_entry_per_interval:
  "(valid_input df rc ii \<longrightarrow>
      (\<exists>lg ts ti. calculate_dca df rc ii = Inr (lg, ts, ti)
         \<and> length lg = length df
         \<and> map Date lg = map fst df
         \<and> map (\<lambda>e. Some (Price e)) lg = map close df))
   \<and> calculate_dca [] rc ii = Inr ([], Fin 0, Fin 0)"
proof
  show "valid_input df rc ii \<longrightarrow>
      (\<exists>lg ts ti. calculate_dca df rc ii = Inr (lg, ts, ti)
         \<and> length lg = length df
         \<and> map Date lg = map fst df
         \<and> map (\<lambda>e. Some (Price e)) lg = map close df)"
    using calculate_dca_returns[OF valid_input_returns] by blast
  show "calculate_dca [] rc ii = Inr ([], Fin 0, Fin 0)"
    by (simp add: run_defs)
qed

theorem ledger_one_entry_per_interval_witness:
  "valid_input (close_frame 0 [10, 20, 40]) (Fin 100) (Fin 50)
   \<and> (\<exists>lg ts ti. calculate_dca (close_frame 0 [10, 20, 40]) (Fin 100) (Fin 50) = Inr (lg, ts, ti)
         \<and> length lg = 3
         \<and> map Date lg = [0, 1, 2]
         \<and> map (\<lambda>e. Some (Price e)) lg = [Some (Fin 10), Some (Fin 20), Some (Fin 40)])
   \<and> calculate_dca [] (Fin 100) (Fin 50) = Inr ([], Fin 0, Fin 0)"
proof -
  have v: "valid_input (close_frame 0 [10, 20, 40]) (Fin 100) (Fin 50)"
    by (simp add: valid_input_def valid_price_def close_def)
  show ?thesis
    using v ledger_one_entry_per_interval[of "close_frame 0 [10, 20, 40]" "Fin 100" "Fin 50"]
    by (simp add: close_def numeral_3_eq_3)
qed

section \<open>The portfolio value\<close>

text \<open>
  C7. For every valid input the call returns a log in which the portfolio value of each
  entry equals the entry's total of shares times the entry's price.
\<close>

theorem portfolio_value_identity:
  assumes "valid_input df rc ii"
  shows "\<exists>lg ts ti. calculate_dca df rc ii = Inr (lg, ts, ti) \<and>
     (\<forall>k<length lg.
        feq (Portfolio_Value (lg ! k)) (fmul (Total_Shares (lg ! k)) (Price (lg ! k))))"
proof -
  from calculate_dca_returns[OF valid_input_returns[OF assms], of rc ii]
  obtain lg ts ti where run: "calculate_dca df rc ii = Inr (lg, ts, ti)" by blast
  from run have loop: "dca_loop 0 (iterrows df) rc ii (Fin 0) (Fin 0) [] = Inr (lg, ts, ti)"
    by (simp add: run_defs)
  have "\<forall>e\<in>set lg. feq (Portfolio_Value e) (fmul (Total_Shares e) (Price e))"
    by (rule dca_loop_portfolio_value[OF assms loop]) simp
  with run show ?thesis by auto
qed

theorem portfolio_value_identity_witness:
  "valid_input (close_frame 0 [10, 20, 40]) (Fin 100) (Fin 50) \<and>
   (\<exists>lg ts ti. calculate_dca (close_frame 0 [10, 20, 40]) (Fin 100) (Fin 50) = Inr (lg, ts, ti) \<and>
      length lg = 3 \<and>
      feq (Portfolio_Value (lg ! 2)) (fmul (Total_Shares (lg ! 2)) (Price (lg ! 2))))"
proof -
  have v: "valid_input (close_frame 0 [10, 20, 40]) (Fin 100) (Fin 50)"
    by (simp add: valid_input_def valid_price_def close_def)
  from portfolio_value_identity[OF v] obtain lg ts ti where
    run: "calculate_dca (close_frame 0 [10, 20, 40]) (Fin 100) (Fin 50) = Inr (lg, ts, ti)"
    and pv: "\<forall>k<length lg.
        feq (Portfolio_Value (lg ! k)) (fmul (Total_Shares (lg ! k)) (Price (lg ! k)))"
    by blast
  from run have len: "length lg = 3" by (auto simp: run_defs)
  with pv[rule_format, of 2] v run show ?thesis by auto
qed

section \<open>The returned totals\<close>

text \<open>
  C8. For every valid input, the two totals returned with the log equal the total of
  shares and the total invested of the last log entry when the frame has a row, and both
  are zero when it has none.
\<close>

theorem returned_totals_are_last_entry:
  assumes "valid_input df rc ii"
  shows "\<exists>lg ts ti. calculate_dca df rc ii = Inr (lg, ts, ti) \<and>
     (if df = [] then lg = [] \<and> feq ts (Fin 0) \<and> feq ti (Fin 0)
      else lg \<noteq> [] \<and> feq ts (Total_Shares (last lg)) \<and> feq ti (Total_Investment (last lg)))"
proof -
  from calculate_dca_returns[OF valid_input_returns[OF assms], of rc ii]
  obtain lg ts ti where run: "calculate_dca df rc ii = Inr (lg, ts, ti)"
    and len: "length lg = length df" by blast
  from run have loop: "dca_loop 0 (iterrows df) rc ii (Fin 0) (Fin 0) [] = Inr (lg, ts, ti)"
    by (simp add: run_defs)
  have fin: "is_finite ts \<and> is_finite ti"
    by (rule dca_loop_finite[OF assms loop]) simp
  have last: "lg \<noteq> [] \<longrightarrow> ts = Total_Shares (last lg) \<and> ti = Total_Investment (last lg)"
    by (rule dca_loop_last[OF loop]) simp
  show ?thesis
  proof (cases "df = []")
    case True
    with run show ?thesis by (auto simp: run_defs feq_def)
  next
    case False
    with len have "lg \<noteq> []" by auto
    with last fin False run show ?thesis by (simp add: is_finite_feq)
  qed
qed

theorem returned_totals_are_last_entry_witness:
  "valid_input (close_frame 0 [10, 20]) (Fin 100) (Fin 50) \<and>
   (\<exists>lg ts ti. calculate_dca (close_frame 0 [10, 20]) (Fin 100) (Fin 50) = Inr (lg, ts, ti) \<and>
      lg \<noteq> [] \<and> feq ts (Total_Shares (last lg)) \<and> feq ti (Total_Investment (last lg)))"
proof -
  have v: "valid_input (close_frame 0 [10, 20]) (Fin 100) (Fin 50)"
    by (simp add: valid_input_def valid_price_def close_def)
  show ?thesis
    using v returned_totals_are_last_entry[OF v] by simp
qed

section \<open>The percentage of net gain or loss\<close>

text \<open>
  C9. The specification asks for a signalled failure when the percentage
  \<open>net_gain_loss / total_invested * 100\<close> is computed with a total invested of zero.
  \<open>main\<close> divides without a guard, and the dividend is a numpy scalar: with both
  contributions zero and one price the summary is produced, with NaN as the percentage.
\<close>

theorem percentage_counterexample:
  "calculate_dca (close_frame 0 [10]) (Fin 0) (Fin 0) =
     Inr ([\<lparr>Date = 0, Price = Fin 10, Total_Shares = Fin 0,
             Total_Investment = Fin 0, Portfolio_Value = Fin 0\<rparr>],
          Fin 0, Fin 0)
   \<and> main_results
       ([\<lparr>Date = 0, Price = Fin 10, Total_Shares = Fin 0,
           Total_Investment = Fin 0, Portfolio_Value = Fin 0\<rparr>],
        Fin 0, Fin 0) =
     Inr \<lparr>final_value = Fin 0, net_gain_loss = Fin 0, net_gain_loss_pct = NaN\<rparr>"
  by (simp add: run_defs main_results_def fsub_def inf_of_sign_def)

text \<open>
  C9, as \<open>main\<close> computes it. For every result with a log that is not empty and a
  total invested of zero, the summary is produced, no error is raised, and the percentage
  is NaN or an infinity.
\<close>

theorem percentage_unguarded:
  assumes "dca_df \<noteq> []"
  shows "\<exists>s. main_results (dca_df, total_shares, Fin 0) = Inr s
      \<and> \<not> is_finite (net_gain_loss_pct s)"
  using assms
  by (simp add: main_results_def Let_def fmul_not_finite fdiv_zero_not_finite)

theorem percentage_unguarded_witness:
  "[\<lparr>Date = 0, Price = Fin 10, Total_Shares = Fin 0,
      Total_Investment = Fin 0, Portfolio_Value = Fin 0\<rparr>] \<noteq> []
   \<and> (\<exists>s. main_results
         ([\<lparr>Date = 0, Price = Fin 10, Total_Shares = Fin 0,
            Total_Investment = Fin 0, Portfolio_Value = Fin 0\<rparr>], Fin 0, Fin 0) = Inr s
       \<and> \<not> is_finite (net_gain_loss_pct s))"
  using percentage_unguarded
    [of "[\<lparr>Date = 0, Price = Fin 10, Total_Shares = Fin 0,
            Total_Investment = Fin 0, Portfolio_Value = Fin 0\<rparr>]" "Fin 0"]
  by simp

section \<open>The columns the result depends on\<close>

text \<open>
  C10. The claim is that two frames with the same dates and the same prices in the
  column \<open>Close\<close> give the same result, whatever their other columns hold. A column of
  strings beside \<open>Close\<close> changes what \<open>iterrows()\<close> delivers: with the single price
  \<open>0\<close>, the frame without it returns a log and the frame with it raises
  \<open>ZeroDivisionError\<close>.
\<close>

theorem other_columns_counterexample:
  "dates_and_prices [(0, [(''Close'', Float64 (Fin 0))])] =
     dates_and_prices [(0, [(''Close'', Float64 (Fin 0)), (''Name'', PyStr ''x'')])]
   \<and> calculate_dca [(0, [(''Close'', Float64 (Fin 0))])] (Fin 100) (Fin 0) =
     Inr ([\<lparr>Date = 0, Price = Fin 0, Total_Shares = PInf,
             Total_Investment = Fin 100, Portfolio_Value = NaN\<rparr>],
          PInf, Fin 100)
   \<and> calculate_dca [(0, [(''Close'', Float64 (Fin 0)), (''Name'', PyStr ''x'')])]
        (Fin 100) (Fin 0) = Inl ZeroDivisionError"
  by (simp add: run_defs inf_of_sign_def dates_and_prices_def close_def)

text \<open>
  C10, as the function computes it. Two frames with the same dates and the same prices
  in the column \<open>Close\<close>, row by row, none of them zero, give the same result for the
  same two contribution parameters, whatever their other columns hold.
\<close>

theorem other_columns_ignored:
  assumes "dates_and_prices df1 = dates_and_prices df2"
    and "list_all (\<lambda>dr. close dr \<noteq> None \<and> close dr \<noteq> Some (Fin 0)) df1"
  shows "calculate_dca df1 rc ii = calculate_dca df2 rc ii"
  unfolding calculate_dca_def
  using same_prices_delivered[OF assms] by (rule dca_loop_cong)

theorem other_columns_ignored_witness:
  "dates_and_prices
     [(0, [(''Close'', Float64 (Fin 10))]), (1, [(''Close'', Float64 (Fin 20))])]
   = dates_and_prices
     [(0, [(''Close'', Float64 (Fin 10)), (''Name'', PyStr ''x'')]),
      (1, [(''Close'', Float64 (Fin 20)), (''Name'', PyStr ''y'')])]
   \<and> list_all (\<lambda>dr. close dr \<noteq> None \<and> close dr \<noteq> Some (Fin 0))
       [(0, [(''Close'', Float64 (Fin 10))]), (1, [(''Close'', Float64 (Fin 20))])]
   \<and> calculate_dca
       [(0, [(''Close'', Float64 (Fin 10))]), (1, [(''Close'', Float64 (Fin 20))])]
       (Fin 100) (Fin 50)
   = calculate_dca
       [(0, [(''Close'', Float64 (Fin 10)), (''Name'', PyStr ''x'')]),
        (1, [(''Close'', Float64 (Fin 20)), (''Name'', PyStr ''y'')])]
       (Fin 100) (Fin 50)"
proof -
  have 1: "dates_and_prices
     [(0, [(''Close'', Float64 (Fin 10))]), (1, [(''Close'', Float64 (Fin 20))])]
   = dates_and_prices
     [(0, [(''Close'', Float64 (Fin 10)), (''Name'', PyStr ''x'')]),
      (1, [(''Close'', Float64 (Fin 20)), (''Name'', PyStr ''y'')])]"
    by (simp add: dates_and_prices_def close_def)
  have 2: "list_all (\<lambda>dr. close dr \<noteq> None \<and> close dr \<noteq> Some (Fin 0))
       [(0, [(''Close'', Float64 (Fin 10))]), (1, [(''Close'', Float64 (Fin 20))])]"
    by (simp add: close_def)
  from 1 2 other_columns_ignored[OF 1 2, of "Fin 100" "Fin 50"] show ?thesis by blast
qed

end
